theory Spec2Isabelle
  imports Main "HOL-Library.AList"
begin

section \<open>Strings and character classes\<close>

text \<open>
  A Python \<open>str\<close> is a sequence of Unicode code points, so a string is a list of
  natural numbers here (\<open>ord\<close> is the identity, \<open>chr\<close> too). The 8-bit \<open>char\<close> of
  HOL could not hold a letter such as U+00F1 or U+0416 as one character.
\<close>

type_synonym ustr = "nat list"

definition ustr :: "string \<Rightarrow> ustr" where
  "ustr s = map of_char s"

text \<open>
  \<open>str.isalpha\<close> and \<open>str.isupper\<close> are tables of the Unicode character database, not
  code of the repository: the cipher takes them as a parameter, one predicate per
  method, each on a single code point.
\<close>

record ucd =
  isalpha :: "nat \<Rightarrow> bool"
  isupper :: "nat \<Rightarrow> bool"

definition ascii_upper :: "nat \<Rightarrow> bool" where
  "ascii_upper c = (65 \<le> c \<and> c \<le> 90)"

definition ascii_lower :: "nat \<Rightarrow> bool" where
  "ascii_lower c = (97 \<le> c \<and> c \<le> 122)"

definition ascii_letter :: "nat \<Rightarrow> bool" where
  "ascii_letter c = (ascii_upper c \<or> ascii_lower c)"

text \<open>
  The two tables as Python has them on three blocks: Basic Latin, the Latin-1
  Supplement (letters \<open>U+00AA\<close>, \<open>U+00B5\<close>, \<open>U+00BA\<close>, \<open>U+00C0\<close> to \<open>U+00FF\<close> without the
  signs \<open>U+00D7\<close> and \<open>U+00F7\<close>; capitals up to \<open>U+00DE\<close>) and the Cyrillic letters
  \<open>U+0410\<close> to \<open>U+044F\<close> (capitals up to \<open>U+042F\<close>). Every other code point is classed as
  a non-letter, which is not Python's answer everywhere: this instance only evaluates
  the cipher on strings of those three blocks.
\<close>

definition sample_isalpha :: "nat \<Rightarrow> bool" where
  "sample_isalpha c =
     (ascii_letter c \<or> c = 170 \<or> c = 181 \<or> c = 186 \<or>
      (192 \<le> c \<and> c \<le> 214) \<or> (216 \<le> c \<and> c \<le> 246) \<or> (248 \<le> c \<and> c \<le> 255) \<or>
      (1040 \<le> c \<and> c \<le> 1103))"

definition sample_isupper :: "nat \<Rightarrow> bool" where
  "sample_isupper c =
     (ascii_upper c \<or> (192 \<le> c \<and> c \<le> 214) \<or> (216 \<le> c \<and> c \<le> 222) \<or>
      (1040 \<le> c \<and> c \<le> 1071))"

definition sample_ucd :: ucd where
  "sample_ucd = \<lparr>isalpha = sample_isalpha, isupper = sample_isupper\<rparr>"

section \<open>The transform: \<open>SQSCipherWorker.caesar_cipher\<close>\<close>

text \<open>
  The body of the loop of \<open>caesar_cipher\<close> for one character: the value appended to
  \<open>result\<close>. Python's \<open>%\<close> with a positive right operand is the \<open>mod\<close> of \<open>int\<close>: the
  result is between 0 and 25 also when the left operand is negative.
\<close>

definition caesar_char :: "ucd \<Rightarrow> int \<Rightarrow> nat \<Rightarrow> nat" where
  "caesar_char U shift char =
     (if isalpha U char then
        (let base = (if isupper U char then 65 else 97);
             shifted = (int char - base + shift) mod 26
         in nat (base + shifted))
      else char)"

text \<open>The loop over \<open>text\<close>, with the list \<open>result\<close> it appends to.\<close>

fun caesar_loop :: "ucd \<Rightarrow> int \<Rightarrow> ustr \<Rightarrow> ustr \<Rightarrow> ustr" where
  "caesar_loop U shift [] result = result"
| "caesar_loop U shift (char # text) result =
     caesar_loop U shift text (result @ [caesar_char U shift char])"

definition caesar_cipher :: "ucd \<Rightarrow> int \<Rightarrow> ustr \<Rightarrow> ustr" where
  "caesar_cipher U shift text = caesar_loop U shift text []"

text \<open>
  The character tables agree with ASCII on the ASCII letters: what Python's tables do
  there, stated for an arbitrary pair of tables.
\<close>

definition ascii_consistent :: "ucd \<Rightarrow> bool" where
  "ascii_consistent U =
     (\<forall>c. ascii_letter c \<longrightarrow> isalpha U c \<and> (isupper U c = ascii_upper c))"

text \<open>Every letter of the string, by the table, is an ASCII letter.\<close>

definition ascii_letters_only :: "ucd \<Rightarrow> ustr \<Rightarrow> bool" where
  "ascii_letters_only U text = list_all (\<lambda>c. \<not> isalpha U c \<or> ascii_letter c) text"

subsection \<open>The same body on the other values a message can hold\<close>

text \<open>
  What \<open>json.loads\<close> returns: \<open>None\<close>, a truth value, a number, a string, a list or a
  dict with string keys. A dict is an association list with its keys in insertion
  order; \<open>map_of\<close> reads it and \<open>AList.update\<close> assigns to a key as Python does (in
  place when the key is there, at the end when it is new). A number with a fraction is
  to this code what an integer is (neither a string nor iterable) and has no
  constructor of its own.
\<close>

datatype json =
    JNull
  | JBool bool
  | JNum int
  | JStr ustr
  | JArr "json list"
  | JObj "(ustr \<times> json) list"

text \<open>The exceptions the code meets; \<open>ClientError\<close> carries the service's error code.\<close>

datatype exn =
    ClientError string
  | JSONDecodeError
  | ValueError
  | RecursionError
  | KeyboardInterrupt
  | AttributeError
  | TypeError
  | OtherError string

text \<open>
  \<open>caesar_cipher\<close> is annotated \<open>text: str\<close>, and nothing checks it: \<open>process_message\<close>
  passes whatever the key \<open>message\<close> holds. \<open>for char in text\<close> then iterates a list's
  elements or a dict's keys and raises \<open>TypeError\<close> on the values that are not iterable.
\<close>

fun iterate :: "json \<Rightarrow> exn + json list" where
  "iterate (JStr s) = Inr (map (\<lambda>c. JStr [c]) s)"
| "iterate (JArr xs) = Inr xs"
| "iterate (JObj d) = Inr (map (\<lambda>kv. JStr (fst kv)) d)"
| "iterate JNull = Inl TypeError"
| "iterate (JBool b) = Inl TypeError"
| "iterate (JNum n) = Inl TypeError"

text \<open>\<open>str.isalpha\<close> on a string of any length: not empty, and every character a letter.\<close>

definition str_isalpha :: "ucd \<Rightarrow> ustr \<Rightarrow> bool" where
  "str_isalpha U s = (s \<noteq> [] \<and> list_all (isalpha U) s)"

text \<open>
  The loop on the items of the iteration. An item that is not a string has no method
  \<open>isalpha\<close> (\<open>AttributeError\<close>); a string of letters that is not one character long
  fails in \<open>ord\<close> (\<open>TypeError\<close>); a string that is not all letters is appended as it is.
  \<open>''.join(result)\<close> concatenates.
\<close>

fun caesar_items :: "ucd \<Rightarrow> int \<Rightarrow> json list \<Rightarrow> ustr list \<Rightarrow> exn + ustr" where
  "caesar_items U shift [] result = Inr (concat result)"
| "caesar_items U shift (JStr s # rest) result =
     (if str_isalpha U s then
        (case s of
           [c] \<Rightarrow> caesar_items U shift rest (result @ [[caesar_char U shift c]])
         | _ \<Rightarrow> Inl TypeError)
      else caesar_items U shift rest (result @ [s]))"
| "caesar_items U shift (char # rest) result = Inl AttributeError"

definition caesar_cipher_dyn :: "ucd \<Rightarrow> int \<Rightarrow> json \<Rightarrow> exn + ustr" where
  "caesar_cipher_dyn U shift v =
     (case iterate v of
        Inl e \<Rightarrow> Inl e
      | Inr items \<Rightarrow> caesar_items U shift items [])"

section \<open>The environment: the SQS client, the clock, the JSON codec\<close>

text \<open>
  A received message, as \<open>consume_message\<close> reads it: \<open>message['Body']\<close> and
  \<open>message['ReceiptHandle']\<close>. SQS returns both keys with every message.
\<close>

record message =
  Body :: ustr
  ReceiptHandle :: ustr

record entry =
  Id :: ustr
  MessageBody :: ustr

text \<open>
  The response of \<open>send_message_batch\<close>: the \<open>Id\<close>s under its key \<open>Successful\<close> and the
  \<open>Id\<close>s with their error codes under \<open>Failed\<close>; each key may be absent. The empty dict
  has neither.
\<close>

record batch_response =
  Successful :: "ustr list option"
  Failed :: "(ustr \<times> string) list option"

definition empty_dict :: batch_response where
  "empty_dict = \<lparr>Successful = None, Failed = None\<rparr>"

text \<open>The calls issued to the client, in order: the trace the claims speak about.\<close>

datatype call =
    GetQueueUrl ustr
  | CreateQueue ustr "(string \<times> string) list"
  | SendMessageBatch ustr "entry list"
  | ReceiveMessage ustr
  | DeleteMessage ustr ustr
  | GetQueueAttributes ustr

text \<open>
  The world outside the process has a state of type \<open>'s\<close>. Each client method maps the
  state to its outcome (an exception or a response) and the next state;
  \<open>datetime.now().isoformat()\<close> reads the clock. \<open>json.loads\<close> returns the value
  parsed or raises: \<open>JSONDecodeError\<close> on text that is not JSON, and also
  \<open>RecursionError\<close> on text nested deeper than the interpreter's limit and a plain
  \<open>ValueError\<close> (the class \<open>JSONDecodeError\<close> derives from) on a number of more
  digits than \<open>int\<close> converts. None of this is code of the repository, so all of it
  is a parameter.
\<close>

record 's env =
  chars :: ucd
  json_loads :: "ustr \<Rightarrow> exn + json"
  json_dumps :: "json \<Rightarrow> ustr"
  now :: "'s \<Rightarrow> ustr \<times> 's"
  get_queue_url :: "ustr \<Rightarrow> 's \<Rightarrow> (exn + ustr) \<times> 's"
  create_queue :: "ustr \<Rightarrow> (string \<times> string) list \<Rightarrow> 's \<Rightarrow> (exn + ustr) \<times> 's"
  send_message_batch :: "ustr \<Rightarrow> entry list \<Rightarrow> 's \<Rightarrow> (exn + batch_response) \<times> 's"
  receive_message :: "ustr \<Rightarrow> 's \<Rightarrow> (exn + message list) \<times> 's"
  delete_message :: "ustr \<Rightarrow> ustr \<Rightarrow> 's \<Rightarrow> (exn + unit) \<times> 's"
  get_queue_attributes :: "ustr \<Rightarrow> 's \<Rightarrow> (exn + (string \<times> string) list) \<times> 's"

text \<open>A client object: the state of the world it talks to and the calls it has issued.\<close>

record 's conn =
  world :: 's
  calls :: "call list"

record 's worker = "'s conn" +
  queue_url :: ustr
  shift :: int
  processed_count :: int

definition logged :: "call \<Rightarrow> ('s, 'z) conn_scheme \<Rightarrow> 's \<Rightarrow> ('s, 'z) conn_scheme" where
  "logged c w s = w\<lparr>world := s, calls := calls w @ [c]\<rparr>"

section \<open>The worker: \<open>process_message\<close>, \<open>consume_message\<close>, \<open>start\<close>\<close>

text \<open>
  \<open>process_message\<close>: \<open>payload.get\<close> exists on a dict only (\<open>AttributeError\<close> otherwise);
  the cipher runs before any key is assigned, the clock is read at the fourth
  assignment. \<open>k\<close> is \<open>self.shift\<close>.
\<close>

definition process_message ::
  "ucd \<Rightarrow> int \<Rightarrow> ('s \<Rightarrow> ustr \<times> 's) \<Rightarrow> json \<Rightarrow> 's \<Rightarrow> (exn + (ustr \<times> json) list) \<times> 's" where
  "process_message U k clock payload s =
     (case payload of
        JObj d \<Rightarrow>
          (let original = (case map_of d (ustr ''message'') of Some v \<Rightarrow> v | None \<Rightarrow> JStr [])
           in case caesar_cipher_dyn U k original of
                Inl e \<Rightarrow> (Inl e, s)
              | Inr encrypted \<Rightarrow>
                  (let d1 = AList.update (ustr ''original_message'') original d;
                       d2 = AList.update (ustr ''encrypted_message'') (JStr encrypted) d1;
                       d3 = AList.update (ustr ''status'') (JStr (ustr ''processed'')) d2;
                       (ts, s') = clock s;
                       d4 = AList.update (ustr ''processed_at'') (JStr ts) d3;
                       d5 = AList.update (ustr ''cipher_shift'') (JNum k) d4
                   in (Inr d5, s')))
      | _ \<Rightarrow> (Inl AttributeError, s))"

text \<open>
  The two \<open>except\<close> clauses of \<open>consume_message\<close>. \<open>receipt_handle\<close> is unbound when the
  exception came out of the receive call: the delete of the second clause then fails
  with a \<open>NameError\<close> inside its own \<open>try\<close>, whose bare \<open>except\<close> swallows that and every
  failure of the delete call.
\<close>

definition consume_except ::
  "'s env \<Rightarrow> ustr option \<Rightarrow> exn \<Rightarrow> 's worker \<Rightarrow> (exn + (ustr \<times> json) list option) \<times> 's worker" where
  "consume_except E receipt_handle e w =
     (case e of
        ClientError code \<Rightarrow> (Inr None, w)
      | JSONDecodeError \<Rightarrow>
          (case receipt_handle of
             None \<Rightarrow> (Inr None, w)
           | Some h \<Rightarrow>
               (let (r, s) = delete_message E (queue_url w) h (world w)
                in (Inr None, logged (DeleteMessage (queue_url w) h) w s)))
      | _ \<Rightarrow> (Inl e, w))"

definition consume_message ::
  "'s env \<Rightarrow> 's worker \<Rightarrow> (exn + (ustr \<times> json) list option) \<times> 's worker" where
  "consume_message E w =
     (let (r, s1) = receive_message E (queue_url w) (world w);
          w1 = logged (ReceiveMessage (queue_url w)) w s1
      in case r of
           Inl e \<Rightarrow> consume_except E None e w1
         | Inr messages \<Rightarrow>
             (case messages of
                [] \<Rightarrow> (Inr None, w1)
              | message # _ \<Rightarrow>
                  (let receipt_handle = ReceiptHandle message
                   in case json_loads E (Body message) of
                        Inl e \<Rightarrow> consume_except E (Some receipt_handle) e w1
                      | Inr payload \<Rightarrow>
                          (case process_message (chars E) (shift w1) (now E) payload (world w1) of
                             (Inl e, s2) \<Rightarrow>
                               consume_except E (Some receipt_handle) e (w1\<lparr>world := s2\<rparr>)
                           | (Inr processed, s2) \<Rightarrow>
                               (let (d, s3) = delete_message E (queue_url w1) receipt_handle s2;
                                    w3 = logged (DeleteMessage (queue_url w1) receipt_handle) w1 s3
                                in case d of
                                     Inl e \<Rightarrow> consume_except E (Some receipt_handle) e w3
                                   | Inr u \<Rightarrow>
                                       (Inr (Some processed),
                                        w3\<lparr>processed_count := processed_count w3 + 1\<rparr>))))))"

definition get_queue_stats ::
  "'s env \<Rightarrow> 's worker \<Rightarrow> (exn + (string \<times> string) list) \<times> 's worker" where
  "get_queue_stats E w =
     (let (r, s) = get_queue_attributes E (queue_url w) (world w);
          w' = logged (GetQueueAttributes (queue_url w)) w s
      in case r of
           Inr attributes \<Rightarrow> (Inr attributes, w')
         | Inl (ClientError code) \<Rightarrow> (Inr [], w')
         | Inl e \<Rightarrow> (Inl e, w'))"

text \<open>
  The test at the head of the loop of \<open>start\<close>,
  \<open>max_messages and self.processed_count >= max_messages\<close>: \<open>None\<close> and \<open>0\<close> are both
  false in Python.
\<close>

definition limit_reached :: "int option \<Rightarrow> int \<Rightarrow> bool" where
  "limit_reached max_messages count =
     (case max_messages of
        None \<Rightarrow> False
      | Some m \<Rightarrow> m \<noteq> 0 \<and> count \<ge> m)"

text \<open>\<open>if result:\<close> on the value \<open>consume_message\<close> returned: a dict is true unless empty.\<close>

definition truthy :: "(ustr \<times> json) list option \<Rightarrow> bool" where
  "truthy res = (case res of None \<Rightarrow> False | Some d \<Rightarrow> d \<noteq> [])"

text \<open>
  The \<open>while True\<close> loop of \<open>start\<close> may run forever, so it runs on fuel: one unit per
  iteration, and \<open>None\<close> when the fuel is used up before the loop is left. The loop is
  left by \<open>break\<close> (\<open>Inr ()\<close>) or by an exception (\<open>Inl\<close>).
\<close>

fun start_loop ::
  "'s env \<Rightarrow> bool \<Rightarrow> int option \<Rightarrow> nat \<Rightarrow> 's worker \<Rightarrow> ((exn + unit) \<times> 's worker) option" where
  "start_loop E continuous max_messages 0 w = None"
| "start_loop E continuous max_messages (Suc fuel) w =
     (if limit_reached max_messages (processed_count w) then Some (Inr (), w)
      else
        (case consume_message E w of
           (Inl e, w') \<Rightarrow> Some (Inl e, w')
         | (Inr res, w') \<Rightarrow>
             if truthy res then start_loop E continuous max_messages fuel w'
             else if \<not> continuous then Some (Inr (), w')
             else start_loop E continuous max_messages fuel w'))"

text \<open>
  \<open>start\<close>: the statistics are read before the \<open>try\<close>; \<open>KeyboardInterrupt\<close> out of the
  loop is caught; \<open>_shutdown\<close> runs in the \<open>finally\<close> clause and reads the statistics
  again, and an exception out of it replaces the one in flight.
\<close>

definition start ::
  "'s env \<Rightarrow> bool \<Rightarrow> int option \<Rightarrow> nat \<Rightarrow> 's worker \<Rightarrow> ((exn + unit) \<times> 's worker) option" where
  "start E continuous max_messages fuel w =
     (case get_queue_stats E w of
        (Inl e, w0) \<Rightarrow> Some (Inl e, w0)
      | (Inr stats, w0) \<Rightarrow>
          (case start_loop E continuous max_messages fuel w0 of
             None \<Rightarrow> None
           | Some (r, w1) \<Rightarrow>
               (let r' = (if r = Inl KeyboardInterrupt then Inr () else r)
                in case get_queue_stats E w1 of
                     (Inl e, w2) \<Rightarrow> Some (Inl e, w2)
                   | (Inr remaining, w2) \<Rightarrow> Some (r', w2))))"

section \<open>The producer: \<open>_get_or_create_queue\<close>, \<open>send_batch\<close>\<close>

definition not_found :: string where
  "not_found = ''AWS.SimpleQueueService.NonExistentQueue''"

definition queue_attributes :: "(string \<times> string) list" where
  "queue_attributes =
     [(''MessageRetentionPeriod'', ''345600''),
      (''VisibilityTimeout'', ''60''),
      (''ReceiveMessageWaitTimeSeconds'', ''20'')]"

definition get_or_create_queue ::
  "'s env \<Rightarrow> ustr \<Rightarrow> 's conn \<Rightarrow> (exn + ustr) \<times> 's conn" where
  "get_or_create_queue E queue_name c =
     (let (r, s1) = get_queue_url E queue_name (world c);
          c1 = logged (GetQueueUrl queue_name) c s1
      in case r of
           Inr url \<Rightarrow> (Inr url, c1)
         | Inl (ClientError code) \<Rightarrow>
             if code = not_found then
               (let (r2, s2) = create_queue E queue_name queue_attributes (world c1)
                in (r2, logged (CreateQueue queue_name queue_attributes) c1 s2))
             else (Inl (ClientError code), c1)
         | Inl e \<Rightarrow> (Inl e, c1))"

text \<open>\<open>str(idx)\<close> for an index of \<open>enumerate\<close>: the decimal digits.\<close>

fun str_nat :: "nat \<Rightarrow> ustr" where
  "str_nat n = (if n < 10 then [48 + n] else str_nat (n div 10) @ [48 + n mod 10])"

text \<open>The loop of \<open>send_batch\<close> that builds \<open>entries\<close>; the clock is read once per message.\<close>

fun build_entries :: "'s env \<Rightarrow> nat \<Rightarrow> ustr list \<Rightarrow> entry list \<Rightarrow> 's \<Rightarrow> entry list \<times> 's" where
  "build_entries E idx [] entries s = (entries, s)"
| "build_entries E idx (msg # messages) entries s =
     (let (ts, s') = now E s;
          payload = JObj [(ustr ''message'', JStr msg),
                          (ustr ''timestamp'', JStr ts),
                          (ustr ''status'', JStr (ustr ''pending''))]
      in build_entries E (Suc idx) messages
           (entries @ [\<lparr>Id = str_nat idx, MessageBody = json_dumps E payload\<rparr>]) s')"

definition send_batch ::
  "'s env \<Rightarrow> ustr \<Rightarrow> ustr list \<Rightarrow> 's conn \<Rightarrow> (exn + batch_response) \<times> 's conn" where
  "send_batch E url messages c =
     (let (entries, s1) = build_entries E 0 messages [] (world c);
          (r, s2) = send_message_batch E url entries s1;
          c2 = logged (SendMessageBatch url entries) c s2
      in case r of
           Inr response \<Rightarrow> (Inr response, c2)
         | Inl (ClientError code) \<Rightarrow> (Inr empty_dict, c2)
         | Inl e \<Rightarrow> (Inl e, c2))"

text \<open>
  What \<open>send_batch\<close> reads off a response, and a caller after it:
  \<open>response.get('Successful', [])\<close> and \<open>response.get('Failed', [])\<close>, as lists of the
  \<open>Id\<close>s they name.
\<close>

definition successful_ids :: "batch_response \<Rightarrow> ustr list" where
  "successful_ids response = (case Successful response of None \<Rightarrow> [] | Some xs \<Rightarrow> xs)"

definition failed_ids :: "batch_response \<Rightarrow> ustr list" where
  "failed_ids response = map fst (case Failed response of None \<Rightarrow> [] | Some xs \<Rightarrow> xs)"

text \<open>The number of entries of each batch call of a trace, in order.\<close>

fun batch_sizes :: "call list \<Rightarrow> nat list" where
  "batch_sizes [] = []"
| "batch_sizes (SendMessageBatch url entries # cs) = length entries # batch_sizes cs"
| "batch_sizes (c # cs) = batch_sizes cs"

text \<open>The number a string of decimal digits stands for; it reads \<open>str(idx)\<close> back.\<close>

definition nat_of_str :: "ustr \<Rightarrow> nat" where
  "nat_of_str s = foldl (\<lambda>a d. 10 * a + (d - 48)) 0 s"

section \<open>A scripted queue service, to run the code on concrete inputs\<close>

text \<open>
  One world to evaluate the definitions in. Each client method has a script, a list
  of outcomes that its successive calls take from the front; when its script is used
  up the method answers as an idle, healthy queue does. A batch of no entries or of
  more than ten is refused, as SQS refuses it. The clock always shows the same time.
\<close>

record sim =
  lookups :: "(exn + ustr) list"
  creations :: "(exn + ustr) list"
  batches :: "(exn + ustr list) list"
  receives :: "(exn + message list) list"
  deletes :: "(exn + unit) list"

definition idle :: sim where
  "idle = \<lparr>lookups = [], creations = [], batches = [], receives = [], deletes = []\<rparr>"

definition sim_url :: "ustr \<Rightarrow> ustr" where
  "sim_url queue_name = ustr ''https://sqs.us-east-1.amazonaws.com/000000000000/'' @ queue_name"

definition sim_now :: "sim \<Rightarrow> ustr \<times> sim" where
  "sim_now s = (ustr ''2024-01-01T00:00:00'', s)"

definition sim_get_queue_url :: "ustr \<Rightarrow> sim \<Rightarrow> (exn + ustr) \<times> sim" where
  "sim_get_queue_url queue_name s =
     (case lookups s of
        [] \<Rightarrow> (Inr (sim_url queue_name), s)
      | r # rest \<Rightarrow> (r, s\<lparr>lookups := rest\<rparr>))"

definition sim_create_queue ::
  "ustr \<Rightarrow> (string \<times> string) list \<Rightarrow> sim \<Rightarrow> (exn + ustr) \<times> sim" where
  "sim_create_queue queue_name attributes s =
     (case creations s of
        [] \<Rightarrow> (Inr (sim_url queue_name), s)
      | r # rest \<Rightarrow> (r, s\<lparr>creations := rest\<rparr>))"

text \<open>
  A scripted answer to a batch is an exception or the list of the \<open>Id\<close>s that fail;
  the response lists the other \<open>Id\<close>s under \<open>Successful\<close>, and has a key only when its
  list is not empty.
\<close>

definition listed :: "'a list \<Rightarrow> 'a list option" where
  "listed xs = (if xs = [] then None else Some xs)"

definition batch_answer :: "entry list \<Rightarrow> ustr list \<Rightarrow> batch_response" where
  "batch_answer entries bad =
     \<lparr>Successful = listed (filter (\<lambda>i. i \<notin> set bad) (map Id entries)),
      Failed = listed (map (\<lambda>i. (i, ''InternalError'')) (filter (\<lambda>i. i \<in> set bad) (map Id entries)))\<rparr>"

definition sim_send_message_batch ::
  "ustr \<Rightarrow> entry list \<Rightarrow> sim \<Rightarrow> (exn + batch_response) \<times> sim" where
  "sim_send_message_batch url entries s =
     (if entries = [] then
        (Inl (ClientError ''AWS.SimpleQueueService.EmptyBatchRequest''), s)
      else if length entries > 10 then
        (Inl (ClientError ''AWS.SimpleQueueService.TooManyEntriesInBatchRequest''), s)
      else
        (case batches s of
           [] \<Rightarrow> (Inr (batch_answer entries []), s)
         | Inl e # rest \<Rightarrow> (Inl e, s\<lparr>batches := rest\<rparr>)
         | Inr bad # rest \<Rightarrow> (Inr (batch_answer entries bad), s\<lparr>batches := rest\<rparr>)))"

definition sim_receive_message :: "ustr \<Rightarrow> sim \<Rightarrow> (exn + message list) \<times> sim" where
  "sim_receive_message url s =
     (case receives s of
        [] \<Rightarrow> (Inr [], s)
      | r # rest \<Rightarrow> (r, s\<lparr>receives := rest\<rparr>))"

definition sim_delete_message :: "ustr \<Rightarrow> ustr \<Rightarrow> sim \<Rightarrow> (exn + unit) \<times> sim" where
  "sim_delete_message url receipt_handle s =
     (case deletes s of
        [] \<Rightarrow> (Inr (), s)
      | r # rest \<Rightarrow> (r, s\<lparr>deletes := rest\<rparr>))"

definition sim_get_queue_attributes ::
  "ustr \<Rightarrow> sim \<Rightarrow> (exn + (string \<times> string) list) \<times> sim" where
  "sim_get_queue_attributes url s = (Inr [(''ApproximateNumberOfMessages'', ''0'')], s)"

text \<open>
  \<open>json.dumps\<close> on the one shape the producer passes to it: a dict of three strings.
  The output is Python's when no character of the strings needs an escape (printable
  ASCII without the double quote and the backslash); every other value is outside
  this sample and gets the empty string.
\<close>

definition quoted :: "ustr \<Rightarrow> ustr" where
  "quoted s = [34] @ s @ [34]"

definition sample_dumps :: "json \<Rightarrow> ustr" where
  "sample_dumps v =
     (case v of
        JObj [(k1, JStr v1), (k2, JStr v2), (k3, JStr v3)] \<Rightarrow>
          ustr ''{'' @ quoted k1 @ ustr '': '' @ quoted v1 @ ustr '', '' @
          quoted k2 @ ustr '': '' @ quoted v2 @ ustr '', '' @
          quoted k3 @ ustr '': '' @ quoted v3 @ ustr ''}''
      | _ \<Rightarrow> [])"

definition envelope :: "ustr \<Rightarrow> json" where
  "envelope msg =
     JObj [(ustr ''message'', JStr msg),
           (ustr ''timestamp'', JStr (ustr ''2024-01-01T00:00:00'')),
           (ustr ''status'', JStr (ustr ''pending''))]"

text \<open>
  \<open>json.loads\<close> on the bodies used below: the envelopes of the messages \<open>Hola\<close> and
  \<open>abc XYZ\<close>, which it parses back; the body of 1000 opening square brackets, on
  which it raises \<open>RecursionError\<close> (the recursion limit of the interpreter is 1000
  frames); and the malformed body \<open>{not json\<close>, on which it raises \<open>JSONDecodeError\<close>.
  Every other body is outside this sample and is answered as that last one is.
\<close>

definition sample_loads :: "ustr \<Rightarrow> exn + json" where
  "sample_loads body =
     (if body = sample_dumps (envelope (ustr ''Hola'')) then Inr (envelope (ustr ''Hola''))
      else if body = sample_dumps (envelope (ustr ''abc XYZ'')) then Inr (envelope (ustr ''abc XYZ''))
      else if body = replicate 1000 91 then Inl RecursionError
      else Inl JSONDecodeError)"

definition sim_env :: "sim env" where
  "sim_env =
     \<lparr>chars = sample_ucd,
      json_loads = sample_loads,
      json_dumps = sample_dumps,
      now = sim_now,
      get_queue_url = sim_get_queue_url,
      create_queue = sim_create_queue,
      send_message_batch = sim_send_message_batch,
      receive_message = sim_receive_message,
      delete_message = sim_delete_message,
      get_queue_attributes = sim_get_queue_attributes\<rparr>"

definition sim_conn :: "sim \<Rightarrow> sim conn" where
  "sim_conn s = \<lparr>world = s, calls = []\<rparr>"

text \<open>The worker as \<open>main\<close> builds it: shift 3, nothing processed yet.\<close>

definition sim_worker :: "sim \<Rightarrow> sim worker" where
  "sim_worker s =
     \<lparr>world = s, calls = [], queue_url = sim_url (ustr ''message-queue''),
      shift = 3, processed_count = 0\<rparr>"

definition hola :: message where
  "hola = \<lparr>Body = sample_dumps (envelope (ustr ''Hola'')), ReceiptHandle = ustr ''rh-1''\<rparr>"

definition abc_xyz :: message where
  "abc_xyz = \<lparr>Body = sample_dumps (envelope (ustr ''abc XYZ'')), ReceiptHandle = ustr ''rh-2''\<rparr>"

text \<open>The batch of the producer's \<open>main\<close>, and the entries \<open>send_batch\<close> builds from it.\<close>

definition batch_messages :: "ustr list" where
  "batch_messages = [ustr ''Mensaje batch 1'', ustr ''Mensaje batch 2'', ustr ''Mensaje batch 3'']"

definition batch_entries :: "entry list" where
  "batch_entries =
     [\<lparr>Id = ustr ''0'', MessageBody = sample_dumps (envelope (ustr ''Mensaje batch 1''))\<rparr>,
      \<lparr>Id = ustr ''1'', MessageBody = sample_dumps (envelope (ustr ''Mensaje batch 2''))\<rparr>,
      \<lparr>Id = ustr ''2'', MessageBody = sample_dumps (envelope (ustr ''Mensaje batch 3''))\<rparr>]"

text \<open>What the worker makes of the envelope of \<open>Hola\<close>, as the scenario of the
  specification has it: \<open>Krod\<close>.\<close>

definition hola_processed :: "(ustr \<times> json) list" where
  "hola_processed =
     [(ustr ''message'', JStr (ustr ''Hola'')),
      (ustr ''timestamp'', JStr (ustr ''2024-01-01T00:00:00'')),
      (ustr ''status'', JStr (ustr ''processed'')),
      (ustr ''original_message'', JStr (ustr ''Hola'')),
      (ustr ''encrypted_message'', JStr (ustr ''Krod'')),
      (ustr ''processed_at'', JStr (ustr ''2024-01-01T00:00:00'')),
      (ustr ''cipher_shift'', JNum 3)]"

definition poison :: message where
  "poison = \<lparr>Body = ustr ''{not json'', ReceiptHandle = ustr ''rh-3''\<rparr>"


text \<open>What the worker makes of the envelope of \<open>abc XYZ\<close>: \<open>def ABC\<close>.\<close>

definition abc_processed :: "(ustr \<times> json) list" where
  "abc_processed =
     [(ustr ''message'', JStr (ustr ''abc XYZ'')),
      (ustr ''timestamp'', JStr (ustr ''2024-01-01T00:00:00'')),
      (ustr ''status'', JStr (ustr ''processed'')),
      (ustr ''original_message'', JStr (ustr ''abc XYZ'')),
      (ustr ''encrypted_message'', JStr (ustr ''def ABC'')),
      (ustr ''processed_at'', JStr (ustr ''2024-01-01T00:00:00'')),
      (ustr ''cipher_shift'', JNum 3)]"

section \<open>Properties of the transform\<close>

subsection \<open>The loop is a map\<close>

lemma caesar_loop_map:
  "caesar_loop U k s acc = acc @ map (caesar_char U k) s"
  by (induction s arbitrary: acc) simp_all

lemma caesar_cipher_map: "caesar_cipher U k text = map (caesar_char U k) text"
  by (simp add: caesar_cipher_def caesar_loop_map)

lemma caesar_cipher_length: "length (caesar_cipher U k text) = length text"
  by (simp add: caesar_cipher_map)

lemma caesar_cipher_empty: "caesar_cipher U k [] = []"
  by (simp add: caesar_cipher_def)

subsection \<open>What one character becomes\<close>

lemma caesar_char_not_alpha: "\<not> isalpha U c \<Longrightarrow> caesar_char U k c = c"
  by (simp add: caesar_char_def)

lemma caesar_char_upper_range:
  assumes "isalpha U c" and "isupper U c"
  shows "ascii_upper (caesar_char U k c)"
proof -
  let ?s = "(int c - 65 + k) mod 26"
  have "0 \<le> ?s" and "?s < 26" by simp_all
  then have "65 \<le> nat (65 + ?s)" and "nat (65 + ?s) \<le> 90" by linarith+
  with assms show ?thesis by (simp add: caesar_char_def ascii_upper_def)
qed

lemma caesar_char_lower_range:
  assumes "isalpha U c" and "\<not> isupper U c"
  shows "ascii_lower (caesar_char U k c)"
proof -
  let ?s = "(int c - 97 + k) mod 26"
  have "0 \<le> ?s" and "?s < 26" by simp_all
  then have "97 \<le> nat (97 + ?s)" and "nat (97 + ?s) \<le> 122" by linarith+
  with assms show ?thesis by (simp add: caesar_char_def ascii_lower_def)
qed

lemma caesar_char_alpha_ascii: "isalpha U c \<Longrightarrow> ascii_letter (caesar_char U k c)"
  using caesar_char_upper_range [of U c k] caesar_char_lower_range [of U c k]
  by (cases "isupper U c") (simp_all add: ascii_letter_def)

lemma caesar_cipher_nth:
  "i < length s \<Longrightarrow> caesar_cipher U k s ! i = caesar_char U k (s ! i)"
  by (simp add: caesar_cipher_map)

lemma sample_ucd_simps:
  "isalpha sample_ucd c = sample_isalpha c" "isupper sample_ucd c = sample_isupper c"
  by (simp_all add: sample_ucd_def)

subsection \<open>On strings of ASCII letters the shift is undone by the opposite shift\<close>

lemma caesar_char_inverse_ascii:
  assumes cons: "ascii_consistent U" and ok: "\<not> isalpha U c \<or> ascii_letter c"
  shows "caesar_char U (- k) (caesar_char U k c) = c"
proof (cases "isalpha U c")
  case False
  then show ?thesis by (simp add: caesar_char_def)
next
  case True
  with ok have letter: "ascii_letter c" by simp
  show ?thesis
  proof (cases "ascii_upper c")
    case True
    then have up: "isupper U c" using cons letter by (simp add: ascii_consistent_def)
    let ?d = "caesar_char U k c"
    have d: "?d = nat (65 + (int c - 65 + k) mod 26)"
      using \<open>isalpha U c\<close> up by (simp add: caesar_char_def)
    have dr: "ascii_upper ?d" using \<open>isalpha U c\<close> up by (rule caesar_char_upper_range)
    then have "ascii_letter ?d" by (simp add: ascii_letter_def)
    then have da: "isalpha U ?d" and du: "isupper U ?d"
      using cons dr by (simp_all add: ascii_consistent_def)
    have "(int ?d - 65 + - k) mod 26 = ((int c - 65 + k) mod 26 - k) mod 26"
      unfolding d by simp
    also have "\<dots> = (int c - 65) mod 26"
      by (metis add_diff_cancel_right' mod_diff_left_eq)
    also have "\<dots> = int c - 65"
      using True by (simp add: ascii_upper_def)
    finally have "(int ?d - 65 + - k) mod 26 = int c - 65" .
    then have "caesar_char U (- k) ?d = nat (65 + (int c - 65))"
      using da du by (simp add: caesar_char_def)
    then show ?thesis by simp
  next
    case False
    with letter have low: "ascii_lower c" by (simp add: ascii_letter_def)
    from False have up: "\<not> isupper U c" using cons letter by (simp add: ascii_consistent_def)
    let ?d = "caesar_char U k c"
    have d: "?d = nat (97 + (int c - 97 + k) mod 26)"
      using \<open>isalpha U c\<close> up by (simp add: caesar_char_def)
    have dr: "ascii_lower ?d" using \<open>isalpha U c\<close> up by (rule caesar_char_lower_range)
    then have dl: "ascii_letter ?d" and nu: "\<not> ascii_upper ?d"
      by (simp_all add: ascii_letter_def ascii_lower_def ascii_upper_def)
    then have da: "isalpha U ?d" and du: "\<not> isupper U ?d"
      using cons by (simp_all add: ascii_consistent_def)
    have "(int ?d - 97 + - k) mod 26 = ((int c - 97 + k) mod 26 - k) mod 26"
      unfolding d by simp
    also have "\<dots> = (int c - 97) mod 26"
      by (metis add_diff_cancel_right' mod_diff_left_eq)
    also have "\<dots> = int c - 97"
      using low by (simp add: ascii_lower_def)
    finally have "(int ?d - 97 + - k) mod 26 = int c - 97" .
    then have "caesar_char U (- k) ?d = nat (97 + (int c - 97))"
      using da du by (simp add: caesar_char_def)
    then show ?thesis by simp
  qed
qed

lemma caesar_cipher_inverse_ascii:
  assumes "ascii_consistent U" and "ascii_letters_only U s"
  shows "caesar_cipher U (- k) (caesar_cipher U k s) = s"
  using assms
  by (simp add: caesar_cipher_map ascii_letters_only_def list_all_iff
        caesar_char_inverse_ascii map_idI)

lemma sample_ucd_ascii_consistent: "ascii_consistent sample_ucd"
  by (auto simp add: ascii_consistent_def sample_ucd_simps sample_isalpha_def
        sample_isupper_def ascii_letter_def ascii_upper_def ascii_lower_def)

subsection \<open>Letters outside ASCII\<close>

text \<open>
  Claim C9. A character that \<open>isalpha\<close> accepts and that is outside \<open>A-Z\<close> and \<open>a-z\<close> is
  shifted all the same, from the base \<open>ord('A')\<close> when \<open>isupper\<close> holds and \<open>ord('a')\<close>
  otherwise: the character written at its place is an ASCII letter, so it is never the
  character read. This holds whatever the two tables are.
\<close>

theorem caesar_cipher_non_ascii_letter:
  assumes i: "i < length s"
      and alpha: "isalpha U (s ! i)"
      and outside: "\<not> ascii_letter (s ! i)"
  shows "caesar_cipher U k s ! i =
           nat ((if isupper U (s ! i) then 65 else 97) +
                (int (s ! i) - (if isupper U (s ! i) then 65 else 97) + k) mod 26)
         \<and> ascii_letter (caesar_cipher U k s ! i)
         \<and> caesar_cipher U k s ! i \<noteq> s ! i"
proof -
  have out: "caesar_cipher U k s ! i = caesar_char U k (s ! i)"
    using i by (rule caesar_cipher_nth)
  have val: "caesar_char U k (s ! i) =
      nat ((if isupper U (s ! i) then 65 else 97) +
           (int (s ! i) - (if isupper U (s ! i) then 65 else 97) + k) mod 26)"
    using alpha by (simp add: caesar_char_def)
  have ascii: "ascii_letter (caesar_char U k (s ! i))"
    using alpha by (rule caesar_char_alpha_ascii)
  from ascii outside have "caesar_char U k (s ! i) \<noteq> s ! i"
    by auto
  with out val ascii show ?thesis by simp
qed

theorem caesar_cipher_non_ascii_letter_witness:
  "caesar_cipher sample_ucd 3 [97, 241, 111, 1046] ! 1 = 114
   \<and> caesar_cipher sample_ucd 3 [97, 241, 111, 1046] ! 3 = 87
   \<and> ascii_letter (caesar_cipher sample_ucd 3 [97, 241, 111, 1046] ! 1)
   \<and> caesar_cipher sample_ucd 3 [97, 241, 111, 1046] ! 1 \<noteq> 241"
  using caesar_cipher_non_ascii_letter [of 1 "[97, 241, 111, 1046]" sample_ucd 3]
        caesar_cipher_non_ascii_letter [of 3 "[97, 241, 111, 1046]" sample_ucd 3]
  by (simp add: sample_ucd_simps sample_isalpha_def sample_isupper_def
        ascii_letter_def ascii_upper_def ascii_lower_def)

text \<open>
  Claim C1 says that the shift by \<open>k\<close> followed by the shift by \<open>-k\<close> gives every
  string back. The second message of the producer's own \<open>main\<close> has the word \<open>sera\<close> with the letter
  U+00E1 at its end: the worker's shift 3 sends the word to \<open>vhub\<close>, and the shift -3 sends that to
  \<open>sery\<close>.
\<close>

theorem caesar_cipher_roundtrip_sera:
  "caesar_cipher sample_ucd 3 [115, 101, 114, 225] = ustr ''vhub''
   \<and> caesar_cipher sample_ucd (- 3) (ustr ''vhub'') = ustr ''sery''
   \<and> caesar_cipher sample_ucd (- 3) (caesar_cipher sample_ucd 3 [115, 101, 114, 225])
       \<noteq> [115, 101, 114, 225]"
  by (simp add: caesar_cipher_map caesar_char_def ustr_def sample_ucd_simps
        sample_isalpha_def sample_isupper_def ascii_letter_def ascii_upper_def ascii_lower_def)

text \<open>
  Claim C7 says that a character outside \<open>A-Z\<close> and \<open>a-z\<close> passes through unchanged.
  The letter U+00F1 is outside both ranges; shift 3 turns it into \<open>r\<close>, and even shift 0
  turns it into \<open>o\<close>.
\<close>

theorem caesar_cipher_enye:
  "caesar_cipher sample_ucd 3 [241] = ustr ''r''
   \<and> \<not> ascii_letter 241
   \<and> caesar_cipher sample_ucd 0 [241] = ustr ''o''"
  by (simp add: caesar_cipher_map caesar_char_def ustr_def sample_ucd_simps
        sample_isalpha_def sample_isupper_def ascii_letter_def ascii_upper_def ascii_lower_def)

section \<open>Properties of \<open>process_message\<close>\<close>

text \<open>On a string the loop over the items is the loop over the characters.\<close>

lemma caesar_items_chars:
  "caesar_items U k (map (\<lambda>c. JStr [c]) s) acc = Inr (concat acc @ map (caesar_char U k) s)"
proof (induction s arbitrary: acc)
  case Nil
  show ?case by simp
next
  case (Cons c s)
  show ?case
  proof (cases "isalpha U c")
    case True
    then show ?thesis by (simp add: str_isalpha_def Cons.IH)
  next
    case False
    then show ?thesis by (simp add: str_isalpha_def Cons.IH caesar_char_def)
  qed
qed

lemma caesar_cipher_dyn_str: "caesar_cipher_dyn U k (JStr s) = Inr (caesar_cipher U k s)"
  by (simp add: caesar_cipher_dyn_def caesar_items_chars caesar_cipher_map)

lemma process_message_dict:
  assumes "process_message U k clock payload s = (Inr d', s')"
  obtains d where "payload = JObj d"
  using assms by (cases payload) (simp_all add: process_message_def)

lemma process_message_other_key:
  assumes run: "process_message U k clock (JObj d) s = (Inr d', s')"
      and other: "key \<notin> {ustr ''original_message'', ustr ''encrypted_message'',
                           ustr ''status'', ustr ''processed_at'', ustr ''cipher_shift''}"
  shows "map_of d' key = map_of d key"
  using run other
  by (auto simp add: process_message_def Let_def update_conv' split: sum.splits prod.splits)

text \<open>The message \<open>Hola\<close> of the specification's scenario, processed with shift 3.\<close>

lemma process_hola:
  "process_message sample_ucd 3 sim_now (envelope (ustr ''Hola'')) s = (Inr hola_processed, s)"
  by (simp add: process_message_def Let_def envelope_def caesar_cipher_dyn_str caesar_cipher_map
        caesar_char_def sample_ucd_simps sample_isalpha_def sample_isupper_def
        ascii_letter_def ascii_upper_def ascii_lower_def sim_now_def ustr_def hola_processed_def)

lemma process_abc:
  "process_message sample_ucd 3 sim_now (envelope (ustr ''abc XYZ'')) s = (Inr abc_processed, s)"
  by (simp add: process_message_def Let_def envelope_def caesar_cipher_dyn_str caesar_cipher_map
        caesar_char_def sample_ucd_simps sample_isalpha_def sample_isupper_def
        ascii_letter_def ascii_upper_def ascii_lower_def sim_now_def ustr_def abc_processed_def)

text \<open>
  Claim C10. When \<open>process_message\<close> returns, its argument was a dict, and every key
  other than \<open>original_message\<close>, \<open>encrypted_message\<close>, \<open>status\<close>, \<open>processed_at\<close> and
  \<open>cipher_shift\<close> reads in the returned payload as it read in the input (present with
  the same value, or absent in both); the keys \<open>message\<close> and \<open>timestamp\<close> of the
  producer are two such keys.
\<close>

theorem process_message_frame:
  assumes run: "process_message U k clock payload s = (Inr d', s')"
      and other: "key \<notin> {ustr ''original_message'', ustr ''encrypted_message'',
                           ustr ''status'', ustr ''processed_at'', ustr ''cipher_shift''}"
  shows "\<exists>d. payload = JObj d
             \<and> map_of d' key = map_of d key
             \<and> map_of d' (ustr ''message'') = map_of d (ustr ''message'')
             \<and> map_of d' (ustr ''timestamp'') = map_of d (ustr ''timestamp'')"
proof -
  from run obtain d where d: "payload = JObj d" by (rule process_message_dict)
  with run have run': "process_message U k clock (JObj d) s = (Inr d', s')" by simp
  have "map_of d' key = map_of d key"
    using run' other by (rule process_message_other_key)
  moreover have "map_of d' (ustr ''message'') = map_of d (ustr ''message'')"
    by (rule process_message_other_key [OF run']) (simp add: ustr_def)
  moreover have "map_of d' (ustr ''timestamp'') = map_of d (ustr ''timestamp'')"
    by (rule process_message_other_key [OF run']) (simp add: ustr_def)
  ultimately show ?thesis using d by simp
qed

theorem process_message_frame_witness:
  "\<exists>d. envelope (ustr ''Hola'') = JObj d
     \<and> map_of hola_processed (ustr ''timestamp'') = map_of d (ustr ''timestamp'')
     \<and> map_of hola_processed (ustr ''message'') = map_of d (ustr ''message'')
     \<and> map_of hola_processed (ustr ''timestamp'') = map_of d (ustr ''timestamp'')"
  using process_message_frame [OF process_hola, of "ustr ''timestamp''"]
  by (simp add: ustr_def)

section \<open>Properties of the worker\<close>

subsection \<open>The scripted service, unfolded\<close>

lemma sim_env_sel:
  "chars sim_env = sample_ucd"
  "json_loads sim_env = sample_loads"
  "json_dumps sim_env = sample_dumps"
  "now sim_env = sim_now"
  "get_queue_url sim_env = sim_get_queue_url"
  "create_queue sim_env = sim_create_queue"
  "send_message_batch sim_env = sim_send_message_batch"
  "receive_message sim_env = sim_receive_message"
  "delete_message sim_env = sim_delete_message"
  "get_queue_attributes sim_env = sim_get_queue_attributes"
  by (simp_all add: sim_env_def)

lemmas sim_ops =
  sim_env_sel sim_worker_def sim_conn_def idle_def sim_get_queue_url_def
  sim_create_queue_def sim_receive_message_def sim_delete_message_def
  sim_get_queue_attributes_def logged_def

lemma sample_loads_hola:
  "sample_loads (sample_dumps (envelope (ustr ''Hola''))) = Inr (envelope (ustr ''Hola''))"
  by (simp add: sample_loads_def)

lemma sample_loads_abc:
  "sample_loads (sample_dumps (envelope (ustr ''abc XYZ''))) = Inr (envelope (ustr ''abc XYZ''))"
  by (simp add: sample_loads_def sample_dumps_def envelope_def quoted_def ustr_def)




lemma sample_loads_poison: "sample_loads (ustr ''{not json'') = Inl JSONDecodeError"
proof -
  have "length (ustr ''{not json'') \<noteq> length (replicate 1000 (91::nat))"
    by (simp add: ustr_def)
  then have "ustr ''{not json'' \<noteq> replicate 1000 91"
    by force
  then show ?thesis
    by (simp add: sample_loads_def) (simp add: sample_dumps_def envelope_def quoted_def ustr_def)
qed

subsection \<open>One call of \<open>consume_message\<close>\<close>

text \<open>A message whose body parses and that the transform accepts: the outcome of the
  delete call decides.\<close>

lemma consume_message_parsed:
  assumes recv: "receive_message E (queue_url w) (world w) = (Inr (m # ms), s1)"
      and parse: "json_loads E (Body m) = Inr payload"
      and proc: "process_message (chars E) (shift w) (now E) payload s1 = (Inr processed, s2)"
      and del: "delete_message E (queue_url w) (ReceiptHandle m) s2 = (d, s3)"
  shows "consume_message E w =
           (case d of
              Inr u \<Rightarrow>
                (Inr (Some processed),
                 w\<lparr>world := s3,
                   calls := calls w @ [ReceiveMessage (queue_url w),
                                       DeleteMessage (queue_url w) (ReceiptHandle m)],
                   processed_count := processed_count w + 1\<rparr>)
            | Inl e \<Rightarrow>
                consume_except E (Some (ReceiptHandle m)) e
                  (w\<lparr>world := s3,
                     calls := calls w @ [ReceiveMessage (queue_url w),
                                         DeleteMessage (queue_url w) (ReceiptHandle m)]\<rparr>))"
  using recv parse proc del
  by (simp add: consume_message_def logged_def Let_def split: sum.splits)

text \<open>One call counts at most one message.\<close>

lemma consume_message_count:
  "processed_count (snd (consume_message E w)) = processed_count w
   \<or> processed_count (snd (consume_message E w)) = processed_count w + 1"
  by (auto simp add: consume_message_def consume_except_def logged_def Let_def
        split: prod.splits sum.splits list.splits option.splits exn.splits)

text \<open>The calls on the messages of the scripted service.\<close>

lemma consume_hola:
  "consume_message sim_env (sim_worker (idle\<lparr>receives := Inr [hola] # rs, deletes := d # ds\<rparr>)) =
     (case d of
        Inr u \<Rightarrow>
          (Inr (Some hola_processed),
           (sim_worker (idle\<lparr>receives := rs, deletes := ds\<rparr>))
             \<lparr>calls := [ReceiveMessage (sim_url (ustr ''message-queue'')),
                        DeleteMessage (sim_url (ustr ''message-queue'')) (ustr ''rh-1'')],
              processed_count := 1\<rparr>)
      | Inl e \<Rightarrow>
          consume_except sim_env (Some (ustr ''rh-1'')) e
            ((sim_worker (idle\<lparr>receives := rs, deletes := ds\<rparr>))
               \<lparr>calls := [ReceiveMessage (sim_url (ustr ''message-queue'')),
                          DeleteMessage (sim_url (ustr ''message-queue'')) (ustr ''rh-1'')]\<rparr>))"
  by (simp add: consume_message_def sim_ops Let_def hola_def sample_loads_hola process_hola
        split: sum.splits)

lemma consume_hola_deleted:
  "consume_message sim_env (sim_worker (idle\<lparr>receives := Inr [hola] # rs\<rparr>)) =
     (Inr (Some hola_processed),
      (sim_worker (idle\<lparr>receives := rs\<rparr>))
        \<lparr>calls := [ReceiveMessage (sim_url (ustr ''message-queue'')),
                   DeleteMessage (sim_url (ustr ''message-queue'')) (ustr ''rh-1'')],
         processed_count := 1\<rparr>)"
  by (simp add: consume_message_def sim_ops Let_def hola_def sample_loads_hola process_hola)

lemma consume_poison:
  "consume_message sim_env (sim_worker (idle\<lparr>receives := Inr [poison] # rs\<rparr>)) =
     (Inr None,
      (sim_worker (idle\<lparr>receives := rs\<rparr>))
        \<lparr>calls := [ReceiveMessage (sim_url (ustr ''message-queue'')),
                   DeleteMessage (sim_url (ustr ''message-queue'')) (ustr ''rh-3'')]\<rparr>)"
  by (simp add: consume_message_def consume_except_def sim_ops Let_def poison_def
        sample_loads_poison)

subsection \<open>A body that does not parse\<close>







subsection \<open>The delete call and the count\<close>

text \<open>
  Claim C3 says that in every cycle a successful delete adds one to \<open>processed_count\<close>
  and that a failed delete ends the loop in neither mode. Three runs of the code say
  otherwise, each on the scripted service. In single-run mode, with a second message
  waiting, the delete raises \<open>ClientError\<close> and the loop ends after one receive call,
  with \<open>Inr ()\<close>, the \<open>break\<close>. In continuous mode the delete raises botocore's
  \<open>EndpointConnectionError\<close>, which is no \<open>ClientError\<close>, and the loop ends with that
  exception. And the successful delete of the message \<open>{not json\<close> leaves the count
  at 0.
\<close>

theorem delete_failure_counterexample:
  "start_loop sim_env False None 5
     (sim_worker (idle\<lparr>receives := [Inr [hola], Inr [abc_xyz]],
                       deletes := [Inl (ClientError ''InternalError'')]\<rparr>)) =
     Some (Inr (),
       (sim_worker (idle\<lparr>receives := [Inr [abc_xyz]]\<rparr>))
         \<lparr>calls := [ReceiveMessage (sim_url (ustr ''message-queue'')),
                    DeleteMessage (sim_url (ustr ''message-queue'')) (ustr ''rh-1'')]\<rparr>)
   \<and> start_loop sim_env True None 5
     (sim_worker (idle\<lparr>receives := [Inr [hola], Inr [abc_xyz]],
                       deletes := [Inl (OtherError ''EndpointConnectionError'')]\<rparr>)) =
     Some (Inl (OtherError ''EndpointConnectionError''),
       (sim_worker (idle\<lparr>receives := [Inr [abc_xyz]]\<rparr>))
         \<lparr>calls := [ReceiveMessage (sim_url (ustr ''message-queue'')),
                    DeleteMessage (sim_url (ustr ''message-queue'')) (ustr ''rh-1'')]\<rparr>)
   \<and> consume_message sim_env (sim_worker (idle\<lparr>receives := [Inr [poison]]\<rparr>)) =
     (Inr None,
      (sim_worker idle)
        \<lparr>calls := [ReceiveMessage (sim_url (ustr ''message-queue'')),
                   DeleteMessage (sim_url (ustr ''message-queue'')) (ustr ''rh-3'')],
         processed_count := 0\<rparr>)"
proof (intro conjI)
  show "start_loop sim_env False None 5
     (sim_worker (idle\<lparr>receives := [Inr [hola], Inr [abc_xyz]],
                       deletes := [Inl (ClientError ''InternalError'')]\<rparr>)) =
     Some (Inr (),
       (sim_worker (idle\<lparr>receives := [Inr [abc_xyz]]\<rparr>))
         \<lparr>calls := [ReceiveMessage (sim_url (ustr ''message-queue'')),
                    DeleteMessage (sim_url (ustr ''message-queue'')) (ustr ''rh-1'')]\<rparr>)"
    by (simp add: numeral_nat consume_hola consume_except_def truthy_def limit_reached_def)
      (simp add: sim_worker_def idle_def)
  show "start_loop sim_env True None 5
     (sim_worker (idle\<lparr>receives := [Inr [hola], Inr [abc_xyz]],
                       deletes := [Inl (OtherError ''EndpointConnectionError'')]\<rparr>)) =
     Some (Inl (OtherError ''EndpointConnectionError''),
       (sim_worker (idle\<lparr>receives := [Inr [abc_xyz]]\<rparr>))
         \<lparr>calls := [ReceiveMessage (sim_url (ustr ''message-queue'')),
                    DeleteMessage (sim_url (ustr ''message-queue'')) (ustr ''rh-1'')]\<rparr>)"
    by (simp add: numeral_nat consume_hola consume_except_def truthy_def limit_reached_def)
      (simp add: sim_worker_def idle_def)
  show "consume_message sim_env (sim_worker (idle\<lparr>receives := [Inr [poison]]\<rparr>)) =
     (Inr None,
      (sim_worker idle)
        \<lparr>calls := [ReceiveMessage (sim_url (ustr ''message-queue'')),
                   DeleteMessage (sim_url (ustr ''message-queue'')) (ustr ''rh-3'')],
         processed_count := 0\<rparr>)"
    by (simp add: consume_poison) (simp add: sim_worker_def idle_def)
qed

text \<open>Every call of \<open>consume_message\<close> starts with a receive call on the worker's queue,
  whose URL it leaves alone.\<close>

lemma consume_message_receives:
  "\<exists>rest. calls (snd (consume_message E w)) = calls w @ ReceiveMessage (queue_url w) # rest"
  by (auto simp add: consume_message_def consume_except_def logged_def Let_def
        split: prod.splits sum.splits list.splits option.splits exn.splits)

lemma consume_abc_deleted:
  "consume_message sim_env
     ((sim_worker (idle\<lparr>receives := Inr [abc_xyz] # rs\<rparr>))\<lparr>calls := cs\<rparr>) =
     (Inr (Some abc_processed),
      (sim_worker (idle\<lparr>receives := rs\<rparr>))
        \<lparr>calls := cs @ [ReceiveMessage (sim_url (ustr ''message-queue'')),
                        DeleteMessage (sim_url (ustr ''message-queue'')) (ustr ''rh-2'')],
         processed_count := 1\<rparr>)"
  by (simp add: consume_message_def sim_ops Let_def abc_xyz_def sample_loads_abc process_abc)

text \<open>
  Claim C3, amended. In a cycle whose message parses and is transformed, and that the
  loop enters below its limit: when the delete call succeeds, the payload is returned
  and \<open>processed_count\<close> grows by exactly 1; when the delete call fails, with whatever
  exception, \<open>processed_count\<close> is unchanged; and when it fails with \<open>ClientError\<close>,
  \<open>consume_message\<close> returns \<open>None\<close> and the loop in continuous mode does not end there:
  it calls \<open>consume_message\<close> again on the state that cycle left, which issues the next
  receive call, and goes on from what that call returns.
\<close>

theorem consume_message_acknowledge:
  assumes recv: "receive_message E (queue_url w) (world w) = (Inr (m # ms), s1)"
      and parse: "json_loads E (Body m) = Inr payload"
      and proc: "process_message (chars E) (shift w) (now E) payload s1 = (Inr processed, s2)"
      and del: "delete_message E (queue_url w) (ReceiptHandle m) s2 = (d, s3)"
      and below: "\<not> limit_reached max_messages (processed_count w)"
  shows "(d = Inr () \<longrightarrow>
            fst (consume_message E w) = Inr (Some processed)
            \<and> processed_count (snd (consume_message E w)) = processed_count w + 1)
       \<and> ((\<exists>e. d = Inl e) \<longrightarrow>
            processed_count (snd (consume_message E w)) = processed_count w)
       \<and> ((\<exists>code. d = Inl (ClientError code)) \<longrightarrow>
            fst (consume_message E w) = Inr None
            \<and> start_loop E True max_messages (Suc (Suc fuel)) w =
                (case consume_message E (snd (consume_message E w)) of
                   (Inl e, w2) \<Rightarrow> Some (Inl e, w2)
                 | (Inr res, w2) \<Rightarrow> start_loop E True max_messages fuel w2)
            \<and> (\<exists>rest. calls (snd (consume_message E (snd (consume_message E w)))) =
                  calls w @ [ReceiveMessage (queue_url w),
                             DeleteMessage (queue_url w) (ReceiptHandle m),
                             ReceiveMessage (queue_url w)] @ rest))"
proof (intro conjI impI)
  assume ok: "d = Inr ()"
  show "fst (consume_message E w) = Inr (Some processed)"
    using consume_message_parsed [OF recv parse proc del] ok by simp
  show "processed_count (snd (consume_message E w)) = processed_count w + 1"
    using consume_message_parsed [OF recv parse proc del] ok by simp
next
  assume "\<exists>e. d = Inl e"
  then obtain e where failed: "d = Inl e" ..
  let ?w3 = "w\<lparr>world := s3,
               calls := calls w @ [ReceiveMessage (queue_url w),
                                   DeleteMessage (queue_url w) (ReceiptHandle m)]\<rparr>"
  have "consume_message E w = consume_except E (Some (ReceiptHandle m)) e ?w3"
    using consume_message_parsed [OF recv parse proc del] failed by simp
  then show "processed_count (snd (consume_message E w)) = processed_count w"
    by (cases e) (simp_all add: consume_except_def logged_def Let_def split: prod.splits)
next
  assume "\<exists>code. d = Inl (ClientError code)"
  then obtain code where failed: "d = Inl (ClientError code)" ..
  let ?w3 = "w\<lparr>world := s3,
               calls := calls w @ [ReceiveMessage (queue_url w),
                                   DeleteMessage (queue_url w) (ReceiptHandle m)]\<rparr>"
  have res: "consume_message E w = (Inr None, ?w3)"
    using consume_message_parsed [OF recv parse proc del] failed
    by (simp add: consume_except_def)
  show "fst (consume_message E w) = Inr None"
    by (simp add: res)
  have below3: "\<not> limit_reached max_messages (processed_count ?w3)"
    using below by simp
  show "start_loop E True max_messages (Suc (Suc fuel)) w =
          (case consume_message E (snd (consume_message E w)) of
             (Inl e, w2) \<Rightarrow> Some (Inl e, w2)
           | (Inr res, w2) \<Rightarrow> start_loop E True max_messages fuel w2)"
    using below below3
    by (simp add: res truthy_def split: prod.splits sum.splits)
  obtain rest where "calls (snd (consume_message E ?w3)) =
      calls ?w3 @ ReceiveMessage (queue_url ?w3) # rest"
    using consume_message_receives [of E ?w3] by blast
  then have "calls (snd (consume_message E (snd (consume_message E w)))) =
      calls w @ [ReceiveMessage (queue_url w),
                 DeleteMessage (queue_url w) (ReceiptHandle m),
                 ReceiveMessage (queue_url w)] @ rest"
    by (simp add: res)
  then show "\<exists>rest. calls (snd (consume_message E (snd (consume_message E w)))) =
      calls w @ [ReceiveMessage (queue_url w),
                 DeleteMessage (queue_url w) (ReceiptHandle m),
                 ReceiveMessage (queue_url w)] @ rest" ..
qed

theorem consume_message_acknowledge_witness:
  "fst (consume_message sim_env (sim_worker (idle\<lparr>receives := [Inr [hola]]\<rparr>))) =
     Inr (Some hola_processed)
   \<and> processed_count (snd (consume_message sim_env
        (sim_worker (idle\<lparr>receives := [Inr [hola]]\<rparr>)))) = 1
   \<and> processed_count (snd (consume_message sim_env
        (sim_worker (idle\<lparr>receives := [Inr [hola], Inr [abc_xyz]],
                          deletes := [Inl (ClientError ''InternalError'')]\<rparr>)))) = 0
   \<and> start_loop sim_env True (Some 1) (Suc (Suc 1))
        (sim_worker (idle\<lparr>receives := [Inr [hola], Inr [abc_xyz]],
                          deletes := [Inl (ClientError ''InternalError'')]\<rparr>)) =
      Some (Inr (),
        (sim_worker idle)
          \<lparr>calls := [ReceiveMessage (sim_url (ustr ''message-queue'')),
                     DeleteMessage (sim_url (ustr ''message-queue'')) (ustr ''rh-1''),
                     ReceiveMessage (sim_url (ustr ''message-queue'')),
                     DeleteMessage (sim_url (ustr ''message-queue'')) (ustr ''rh-2'')],
           processed_count := 1\<rparr>)"
proof -
  let ?W1 = "sim_worker (idle\<lparr>receives := [Inr [hola]]\<rparr>)"
  let ?W2 = "sim_worker (idle\<lparr>receives := [Inr [hola], Inr [abc_xyz]],
                              deletes := [Inl (ClientError ''InternalError'')]\<rparr>)"
  let ?S1 = "idle\<lparr>receives := [Inr [abc_xyz]],
                    deletes := [Inl (ClientError ''InternalError'')]\<rparr>"
  let ?S2 = "idle\<lparr>receives := [Inr [abc_xyz]]\<rparr>"
  have parse: "json_loads sim_env (Body hola) = Inr (envelope (ustr ''Hola''))"
    by (simp add: sim_env_sel hola_def sample_loads_hola)
  have recv1: "receive_message sim_env (queue_url ?W1) (world ?W1) = (Inr (hola # []), idle)"
    by (simp add: sim_ops)
  have proc1: "process_message (chars sim_env) (shift ?W1) (now sim_env)
                 (envelope (ustr ''Hola'')) idle = (Inr hola_processed, idle)"
    by (simp add: sim_env_sel sim_worker_def process_hola)
  have del1: "delete_message sim_env (queue_url ?W1) (ReceiptHandle hola) idle = (Inr (), idle)"
    by (simp add: sim_ops)
  have below1: "\<not> limit_reached (Some 1) (processed_count ?W1)"
    by (simp add: limit_reached_def sim_worker_def)
  have recv2: "receive_message sim_env (queue_url ?W2) (world ?W2) = (Inr (hola # []), ?S1)"
    by (simp add: sim_ops)
  have proc2: "process_message (chars sim_env) (shift ?W2) (now sim_env)
                 (envelope (ustr ''Hola'')) ?S1 = (Inr hola_processed, ?S1)"
    by (simp add: sim_env_sel sim_worker_def process_hola)
  have del2: "delete_message sim_env (queue_url ?W2) (ReceiptHandle hola) ?S1 =
                (Inl (ClientError ''InternalError''), ?S2)"
    by (simp add: sim_ops)
  have below2: "\<not> limit_reached (Some 1) (processed_count ?W2)"
    by (simp add: limit_reached_def sim_worker_def)
  have first: "consume_message sim_env ?W2 =
      (Inr None,
       (sim_worker ?S2)
         \<lparr>calls := [ReceiveMessage (sim_url (ustr ''message-queue'')),
                    DeleteMessage (sim_url (ustr ''message-queue'')) (ustr ''rh-1'')]\<rparr>)"
    by (simp add: consume_hola consume_except_def) (simp add: sim_worker_def idle_def)
  have ok: "fst (consume_message sim_env ?W1) = Inr (Some hola_processed)
      \<and> processed_count (snd (consume_message sim_env ?W1)) = 1"
    using consume_message_acknowledge [OF recv1 parse proc1 del1 below1]
    by (simp add: sim_worker_def)
  have ko: "processed_count (snd (consume_message sim_env ?W2)) = 0
      \<and> start_loop sim_env True (Some 1) (Suc (Suc 1)) ?W2 =
          (case consume_message sim_env (snd (consume_message sim_env ?W2)) of
             (Inl e, w2) \<Rightarrow> Some (Inl e, w2)
           | (Inr res, w2) \<Rightarrow> start_loop sim_env True (Some 1) 1 w2)"
    using consume_message_acknowledge [OF recv2 parse proc2 del2 below2, of 1]
    by (simp add: sim_worker_def)
  from ko have "start_loop sim_env True (Some 1) (Suc (Suc 1)) ?W2 =
      Some (Inr (),
        (sim_worker idle)
          \<lparr>calls := [ReceiveMessage (sim_url (ustr ''message-queue'')),
                     DeleteMessage (sim_url (ustr ''message-queue'')) (ustr ''rh-1''),
                     ReceiveMessage (sim_url (ustr ''message-queue'')),
                     DeleteMessage (sim_url (ustr ''message-queue'')) (ustr ''rh-2'')],
           processed_count := 1\<rparr>)"
    by (simp add: first consume_abc_deleted limit_reached_def) (simp add: sim_worker_def idle_def)
  with ok ko show ?thesis by simp
qed

subsection \<open>The limit \<open>max_messages\<close>\<close>

text \<open>
  With a positive limit the loop stops at its head, before any call, once the count
  has reached the limit, and the count never passes the limit.
\<close>

lemma start_loop_at_limit:
  assumes "0 < M" and "M \<le> processed_count w"
  shows "start_loop E continuous (Some M) (Suc fuel) w = Some (Inr (), w)"
  using assms by (simp add: limit_reached_def)

lemma start_loop_count_le:
  assumes "0 < M" and "processed_count w \<le> M"
      and "start_loop E continuous (Some M) fuel w = Some (r, w')"
  shows "processed_count w' \<le> M"
  using assms
proof (induction fuel arbitrary: w)
  case 0
  then show ?case by simp
next
  case (Suc fuel)
  show ?case
  proof (cases "limit_reached (Some M) (processed_count w)")
    case True
    with Suc.prems show ?thesis by simp
  next
    case False
    then have lt: "processed_count w < M"
      using Suc.prems(1) by (simp add: limit_reached_def)
    obtain x w1 where c: "consume_message E w = (x, w1)"
      by (cases "consume_message E w")
    have le: "processed_count w1 \<le> M"
      using consume_message_count [of E w] c lt by auto
    show ?thesis
    proof (cases x)
      case (Inl e)
      with Suc.prems(3) False c le show ?thesis by simp
    next
      case (Inr res)
      with Suc.prems(3) False c le Suc.IH [OF Suc.prems(1) le] show ?thesis
        by (simp split: if_splits)
    qed
  qed
qed

text \<open>The limit 0 is no limit: the test at the head of the loop reads it as false.\<close>

lemma limit_zero_is_no_limit: "limit_reached (Some 0) n = limit_reached None n"
  by (simp add: limit_reached_def)

lemma start_loop_zero_limit:
  "start_loop E continuous (Some 0) fuel w = start_loop E continuous None fuel w"
proof (induction fuel arbitrary: w)
  case 0
  show ?case by simp
next
  case (Suc fuel)
  show ?case
    using Suc.IH
    by (cases continuous) (simp_all add: limit_reached_def split: prod.splits sum.splits)
qed

text \<open>
  Claim C4 includes the limit 0: a worker started with \<open>max_messages = 0\<close> is to stop
  after no acknowledgment and to issue no receive call. Started so in single-run mode
  on a queue that holds one message, \<open>start\<close> receives, processes and deletes the
  message, receives again, and ends with \<open>processed_count = 1\<close>.
\<close>

theorem start_max_messages_zero:
  "start sim_env False (Some 0) 5 (sim_worker (idle\<lparr>receives := [Inr [hola]]\<rparr>)) =
     Some (Inr (),
       (sim_worker idle)
         \<lparr>calls := [GetQueueAttributes (sim_url (ustr ''message-queue'')),
                    ReceiveMessage (sim_url (ustr ''message-queue'')),
                    DeleteMessage (sim_url (ustr ''message-queue'')) (ustr ''rh-1''),
                    ReceiveMessage (sim_url (ustr ''message-queue'')),
                    GetQueueAttributes (sim_url (ustr ''message-queue''))],
          processed_count := 1\<rparr>)"
  by (simp add: start_def get_queue_stats_def consume_message_def sim_ops Let_def hola_def
        sample_loads_hola process_hola numeral_nat limit_reached_def truthy_def
        hola_processed_def)

section \<open>Properties of the producer\<close>

subsection \<open>The entries of a batch\<close>

text \<open>\<open>str\<close> is injective on the indices, so the \<open>Id\<close>s of a batch are distinct.\<close>

lemma nat_of_str_snoc: "nat_of_str (s @ [d]) = 10 * nat_of_str s + (d - 48)"
  by (simp add: nat_of_str_def)

lemma nat_of_str_str_nat: "nat_of_str (str_nat n) = n"
proof (induction n rule: str_nat.induct)
  case (1 n)
  show ?case
  proof (cases "n < 10")
    case True
    then have "str_nat n = [48 + n]" by simp
    then show ?thesis by (simp add: nat_of_str_def)
  next
    case False
    then have "str_nat n = str_nat (n div 10) @ [48 + n mod 10]"
      by simp
    then have "nat_of_str (str_nat n) = 10 * nat_of_str (str_nat (n div 10)) + n mod 10"
      by (simp only: nat_of_str_snoc add_diff_cancel_left')
    with "1.IH" [OF False] show ?thesis by simp
  qed
qed

lemma str_nat_inj: "inj str_nat"
  by (rule inj_on_inverseI [where g = nat_of_str]) (rule nat_of_str_str_nat)

lemma build_entries_ids:
  "map Id (fst (build_entries E idx messages acc s)) =
     map Id acc @ map str_nat [idx..<idx + length messages]"
proof (induction messages arbitrary: idx acc s)
  case Nil
  show ?case by simp
next
  case (Cons msg messages)
  show ?case
    by (simp add: Cons.IH split: prod.splits del: str_nat.simps upt_Suc add: upt_conv_Cons)
qed

lemma build_entries_length:
  "length (fst (build_entries E 0 messages [] s)) = length messages"
  using build_entries_ids [of E 0 messages "[]" s, THEN arg_cong, of length]
  by simp

lemma build_entries_distinct:
  "distinct (map Id (fst (build_entries E 0 messages [] s)))"
  by (simp add: build_entries_ids distinct_map str_nat_inj inj_on_subset [OF str_nat_inj] del: str_nat.simps)

lemma batch_sizes_append: "batch_sizes (xs @ ys) = batch_sizes xs @ batch_sizes ys"
  by (induction xs rule: batch_sizes.induct) simp_all

lemma send_batch_calls:
  "calls (snd (send_batch E url messages c)) =
     calls c @ [SendMessageBatch url (fst (build_entries E 0 messages [] (world c)))]"
  by (simp add: send_batch_def logged_def Let_def split: prod.splits sum.splits exn.splits)

lemma send_batch_outcome:
  assumes built: "build_entries E 0 messages [] (world c) = (entries, s1)"
      and sent: "send_message_batch E url entries s1 = (r, s2)"
  shows "fst (send_batch E url messages c) =
           (case r of
              Inr response \<Rightarrow> Inr response
            | Inl (ClientError code) \<Rightarrow> Inr empty_dict
            | Inl e \<Rightarrow> Inl e)"
  using built sent
  by (simp add: send_batch_def Let_def split: sum.splits exn.splits)

lemma reported_once:
  assumes ids: "distinct ids"
      and once: "distinct (succ @ failed)"
      and same: "set (succ @ failed) = set ids"
  shows "set succ \<inter> set failed = {} \<and> length succ + length failed = length ids"
proof -
  from once have "set succ \<inter> set failed = {}" by simp
  moreover have "length (succ @ failed) = length ids"
    using distinct_card [OF once] distinct_card [OF ids] same by simp
  ultimately show ?thesis by simp
qed

text \<open>The batch of \<open>main\<close> against the scripted service.\<close>

lemma build_batch_entries:
  "build_entries sim_env 0 batch_messages [] s = (batch_entries, s)"
  by (simp add: batch_messages_def batch_entries_def sim_env_sel sim_now_def envelope_def
        numeral_nat)
    (simp add: ustr_def)

lemma send_throttled:
  "send_message_batch sim_env url batch_entries
     (idle\<lparr>batches := [Inl (ClientError ''RequestThrottled'')]\<rparr>) =
   (Inl (ClientError ''RequestThrottled''), idle)"
  by (simp add: sim_env_sel sim_send_message_batch_def batch_entries_def idle_def)

lemma send_disconnected:
  "send_message_batch sim_env url batch_entries
     (idle\<lparr>batches := [Inl (OtherError ''EndpointConnectionError'')]\<rparr>) =
   (Inl (OtherError ''EndpointConnectionError''), idle)"
  by (simp add: sim_env_sel sim_send_message_batch_def batch_entries_def idle_def)

lemma send_second_fails:
  "send_message_batch sim_env url batch_entries (idle\<lparr>batches := [Inr [ustr ''1'']]\<rparr>) =
   (Inr \<lparr>Successful = Some [ustr ''0'', ustr ''2''],
         Failed = Some [(ustr ''1'', ''InternalError'')]\<rparr>, idle)"
  by (simp add: sim_env_sel sim_send_message_batch_def batch_entries_def idle_def
        batch_answer_def listed_def ustr_def)

subsection \<open>One batch call for the whole input\<close>

text \<open>
  Claim C5 says that \<open>send_batch\<close> puts at most ten entries in a call and splits a
  larger input over several calls. Eleven messages go out in one call of eleven
  entries.
\<close>

theorem send_batch_eleven_in_one_call:
  "batch_sizes (calls (snd (send_batch sim_env (sim_url (ustr ''message-queue''))
       (replicate 11 (ustr ''m'')) (sim_conn idle)))) = [11]"
  by (simp add: send_batch_calls batch_sizes_append build_entries_length sim_conn_def)

text \<open>
  Claim C5, amended. For every input sequence \<open>send_batch\<close> issues exactly one batch
  call, which carries one entry per message, all of them, with the \<open>Id\<close>s \<open>str(0)\<close>,
  \<open>str(1)\<close>, ... in order; nothing caps or splits the input.
\<close>

theorem send_batch_one_call:
  "batch_sizes (calls (snd (send_batch E url messages c))) =
     batch_sizes (calls c) @ [length messages]
   \<and> (\<exists>entries.
        calls (snd (send_batch E url messages c)) = calls c @ [SendMessageBatch url entries]
        \<and> map Id entries = map str_nat [0..<length messages])"
proof -
  let ?entries = "fst (build_entries E 0 messages [] (world c))"
  have trace: "calls (snd (send_batch E url messages c)) =
                 calls c @ [SendMessageBatch url ?entries]"
    by (rule send_batch_calls)
  have ids: "map Id ?entries = map str_nat [0..<length messages]"
    using build_entries_ids [of E 0 messages "[]" "world c"] by simp
  have "batch_sizes (calls (snd (send_batch E url messages c))) =
          batch_sizes (calls c) @ [length messages]"
    by (simp add: trace batch_sizes_append build_entries_length)
  with trace ids show ?thesis by blast
qed

theorem send_batch_one_call_witness:
  "batch_sizes (calls (snd (send_batch sim_env (sim_url (ustr ''message-queue''))
       [ustr ''Mensaje batch 1'', ustr ''Mensaje batch 2'', ustr ''Mensaje batch 3'']
       (sim_conn idle)))) = [3]"
  using send_batch_one_call [of sim_env "sim_url (ustr ''message-queue'')"
          "[ustr ''Mensaje batch 1'', ustr ''Mensaje batch 2'', ustr ''Mensaje batch 3'']"
          "sim_conn idle"]
  by (simp add: sim_conn_def)

subsection \<open>What \<open>send_batch\<close> returns\<close>

text \<open>
  Claim C6 says that \<open>send_batch\<close> never raises, never returns an empty result on a
  service error, and that the successful and failed indices always add up to the
  number of messages. When the service throttles the batch of three (a \<open>ClientError\<close>)
  the result is the empty dict, whose two lists have 0 elements together; when the call
  fails with an exception that is not a \<open>ClientError\<close>, \<open>send_batch\<close> raises it.
\<close>

theorem send_batch_empty_on_error:
  "fst (send_batch sim_env (sim_url (ustr ''message-queue'')) batch_messages
         (sim_conn (idle\<lparr>batches := [Inl (ClientError ''RequestThrottled'')]\<rparr>))) =
     Inr empty_dict
   \<and> length (successful_ids empty_dict) + length (failed_ids empty_dict) = 0
   \<and> length batch_messages = 3
   \<and> fst (send_batch sim_env (sim_url (ustr ''message-queue'')) batch_messages
         (sim_conn (idle\<lparr>batches := [Inl (OtherError ''EndpointConnectionError'')]\<rparr>))) =
     Inl (OtherError ''EndpointConnectionError'')"
proof (intro conjI)
  let ?S1 = "idle\<lparr>batches := [Inl (ClientError ''RequestThrottled'')]\<rparr>"
  let ?S2 = "idle\<lparr>batches := [Inl (OtherError ''EndpointConnectionError'')]\<rparr>"
  have built1: "build_entries sim_env 0 batch_messages [] (world (sim_conn ?S1)) =
                  (batch_entries, ?S1)"
    by (simp add: sim_conn_def build_batch_entries)
  have built2: "build_entries sim_env 0 batch_messages [] (world (sim_conn ?S2)) =
                  (batch_entries, ?S2)"
    by (simp add: sim_conn_def build_batch_entries)
  show "fst (send_batch sim_env (sim_url (ustr ''message-queue'')) batch_messages
              (sim_conn ?S1)) = Inr empty_dict"
    using send_batch_outcome [OF built1 send_throttled] by simp
  show "length (successful_ids empty_dict) + length (failed_ids empty_dict) = 0"
    by (simp add: successful_ids_def failed_ids_def empty_dict_def)
  show "length batch_messages = 3"
    by (simp add: batch_messages_def)
  show "fst (send_batch sim_env (sim_url (ustr ''message-queue'')) batch_messages
              (sim_conn ?S2)) = Inl (OtherError ''EndpointConnectionError'')"
    using send_batch_outcome [OF built2 send_disconnected] by simp
qed

text \<open>
  Claim C6, amended. When the batch call raises \<open>ClientError\<close>, \<open>send_batch\<close> raises
  nothing and returns the empty dict, which names no entry as successful or failed.
  When the call returns, \<open>send_batch\<close> returns the service's response as it is; and if
  that response names every submitted \<open>Id\<close>, each once, under \<open>Successful\<close> or under
  \<open>Failed\<close>, then the successful and the failed \<open>Id\<close>s are disjoint and their numbers
  sum to the number of messages.
\<close>

theorem send_batch_result:
  assumes built: "build_entries E 0 messages [] (world c) = (entries, s1)"
      and sent: "send_message_batch E url entries s1 = (r, s2)"
  shows "((\<exists>code. r = Inl (ClientError code)) \<longrightarrow>
            fst (send_batch E url messages c) = Inr empty_dict
            \<and> successful_ids empty_dict = [] \<and> failed_ids empty_dict = [])
       \<and> (\<forall>response. r = Inr response \<longrightarrow>
            fst (send_batch E url messages c) = Inr response
            \<and> (distinct (successful_ids response @ failed_ids response)
                 \<and> set (successful_ids response @ failed_ids response) = set (map Id entries)
               \<longrightarrow> set (successful_ids response) \<inter> set (failed_ids response) = {}
                   \<and> length (successful_ids response) + length (failed_ids response) =
                       length messages))"
proof (intro conjI allI impI)
  assume "\<exists>code. r = Inl (ClientError code)"
  then obtain code where "r = Inl (ClientError code)" ..
  then show "fst (send_batch E url messages c) = Inr empty_dict"
    using send_batch_outcome [OF built sent] by simp
  show "successful_ids empty_dict = []"
    by (simp add: successful_ids_def empty_dict_def)
  show "failed_ids empty_dict = []"
    by (simp add: failed_ids_def empty_dict_def)
next
  fix response
  assume ok: "r = Inr response"
  then show "fst (send_batch E url messages c) = Inr response"
    using send_batch_outcome [OF built sent] by simp
next
  fix response
  assume ok: "r = Inr response"
     and rep: "distinct (successful_ids response @ failed_ids response)
               \<and> set (successful_ids response @ failed_ids response) = set (map Id entries)"
  have e: "entries = fst (build_entries E 0 messages [] (world c))"
    using built by simp
  have d: "distinct (map Id entries)"
    unfolding e by (rule build_entries_distinct)
  have n: "length (map Id entries) = length messages"
    unfolding e by (simp add: build_entries_length)
  from reported_once [OF d] rep n
  have both: "set (successful_ids response) \<inter> set (failed_ids response) = {}
        \<and> length (successful_ids response) + length (failed_ids response) = length messages"
    by metis
  from both show "set (successful_ids response) \<inter> set (failed_ids response) = {}" ..
  from both show "length (successful_ids response) + length (failed_ids response) =
      length messages" ..
qed

theorem send_batch_result_witness:
  "fst (send_batch sim_env (sim_url (ustr ''message-queue'')) batch_messages
         (sim_conn (idle\<lparr>batches := [Inl (ClientError ''RequestThrottled'')]\<rparr>))) =
     Inr empty_dict
   \<and> fst (send_batch sim_env (sim_url (ustr ''message-queue'')) batch_messages
         (sim_conn (idle\<lparr>batches := [Inr [ustr ''1'']]\<rparr>))) =
     Inr \<lparr>Successful = Some [ustr ''0'', ustr ''2''],
          Failed = Some [(ustr ''1'', ''InternalError'')]\<rparr>
   \<and> set [ustr ''0'', ustr ''2''] \<inter> set [ustr ''1''] = {}
   \<and> length [ustr ''0'', ustr ''2''] + length [ustr ''1''] = length batch_messages"
proof -
  let ?url = "sim_url (ustr ''message-queue'')"
  let ?S1 = "idle\<lparr>batches := [Inl (ClientError ''RequestThrottled'')]\<rparr>"
  let ?S2 = "idle\<lparr>batches := [Inr [ustr ''1'']]\<rparr>"
  let ?R = "\<lparr>Successful = Some [ustr ''0'', ustr ''2''],
             Failed = Some [(ustr ''1'', ''InternalError'')]\<rparr>"
  have built1: "build_entries sim_env 0 batch_messages [] (world (sim_conn ?S1)) =
                  (batch_entries, ?S1)"
    by (simp add: sim_conn_def build_batch_entries)
  have built2: "build_entries sim_env 0 batch_messages [] (world (sim_conn ?S2)) =
                  (batch_entries, ?S2)"
    by (simp add: sim_conn_def build_batch_entries)
  have succ: "successful_ids ?R = [ustr ''0'', ustr ''2'']"
    by (simp add: successful_ids_def)
  have failed: "failed_ids ?R = [ustr ''1'']"
    by (simp add: failed_ids_def)
  have reported: "distinct (successful_ids ?R @ failed_ids ?R)
      \<and> set (successful_ids ?R @ failed_ids ?R) = set (map Id batch_entries)"
    unfolding succ failed by (auto simp add: batch_entries_def ustr_def)
  have first: "fst (send_batch sim_env ?url batch_messages (sim_conn ?S1)) = Inr empty_dict"
    using send_batch_result [OF built1 send_throttled] by blast
  have second: "fst (send_batch sim_env ?url batch_messages (sim_conn ?S2)) = Inr ?R
      \<and> set (successful_ids ?R) \<inter> set (failed_ids ?R) = {}
      \<and> length (successful_ids ?R) + length (failed_ids ?R) = length batch_messages"
    using send_batch_result [OF built2 send_second_fails] reported by blast
  from first second show ?thesis
    unfolding succ failed by blast
qed

subsection \<open>Queue resolution\<close>

text \<open>
  Claim C8. \<open>_get_or_create_queue\<close> issues the create call exactly when the lookup
  raised \<open>ClientError\<close> with the code \<open>AWS.SimpleQueueService.NonExistentQueue\<close>, and then
  returns or raises what the create call does. On every other outcome of the lookup it
  issues the lookup alone and hands the outcome on: the URL found, or the very
  exception the lookup raised.
\<close>

theorem get_or_create_queue_creates_on_not_found_only:
  assumes lookup: "get_queue_url E queue_name (world c) = (r, s1)"
  shows "(r = Inl (ClientError not_found) \<longrightarrow>
            calls (snd (get_or_create_queue E queue_name c)) =
              calls c @ [GetQueueUrl queue_name, CreateQueue queue_name queue_attributes]
            \<and> fst (get_or_create_queue E queue_name c) =
                fst (create_queue E queue_name queue_attributes s1))
       \<and> (r \<noteq> Inl (ClientError not_found) \<longrightarrow>
            calls (snd (get_or_create_queue E queue_name c)) = calls c @ [GetQueueUrl queue_name]
            \<and> fst (get_or_create_queue E queue_name c) = r)"
proof (intro conjI impI)
  assume nf: "r = Inl (ClientError not_found)"
  obtain r2 s2 where created: "create_queue E queue_name queue_attributes s1 = (r2, s2)"
    by (cases "create_queue E queue_name queue_attributes s1")
  have "get_or_create_queue E queue_name c =
          (r2, c\<lparr>world := s2,
                 calls := calls c @ [GetQueueUrl queue_name,
                                     CreateQueue queue_name queue_attributes]\<rparr>)"
    using lookup nf created by (simp add: get_or_create_queue_def logged_def Let_def)
  then show "calls (snd (get_or_create_queue E queue_name c)) =
               calls c @ [GetQueueUrl queue_name, CreateQueue queue_name queue_attributes]"
        and "fst (get_or_create_queue E queue_name c) =
               fst (create_queue E queue_name queue_attributes s1)"
    using created by simp_all
next
  assume other: "r \<noteq> Inl (ClientError not_found)"
  have "get_or_create_queue E queue_name c =
          (r, c\<lparr>world := s1, calls := calls c @ [GetQueueUrl queue_name]\<rparr>)"
    using lookup other
    by (cases r) (auto simp add: get_or_create_queue_def logged_def Let_def split: exn.splits)
  then show "calls (snd (get_or_create_queue E queue_name c)) =
               calls c @ [GetQueueUrl queue_name]"
        and "fst (get_or_create_queue E queue_name c) = r"
    by simp_all
qed

theorem get_or_create_queue_witness:
  "calls (snd (get_or_create_queue sim_env (ustr ''message-queue'')
       (sim_conn (idle\<lparr>lookups := [Inl (ClientError not_found)]\<rparr>)))) =
     [GetQueueUrl (ustr ''message-queue''),
      CreateQueue (ustr ''message-queue'') queue_attributes]
   \<and> fst (get_or_create_queue sim_env (ustr ''message-queue'')
       (sim_conn (idle\<lparr>lookups := [Inl (ClientError not_found)]\<rparr>))) =
     Inr (sim_url (ustr ''message-queue''))
   \<and> calls (snd (get_or_create_queue sim_env (ustr ''message-queue'')
       (sim_conn (idle\<lparr>lookups := [Inl (ClientError ''AccessDenied'')]\<rparr>)))) =
     [GetQueueUrl (ustr ''message-queue'')]
   \<and> fst (get_or_create_queue sim_env (ustr ''message-queue'')
       (sim_conn (idle\<lparr>lookups := [Inl (ClientError ''AccessDenied'')]\<rparr>))) =
     Inl (ClientError ''AccessDenied'')"
proof -
  let ?q = "ustr ''message-queue''"
  let ?C1 = "sim_conn (idle\<lparr>lookups := [Inl (ClientError not_found)]\<rparr>)"
  let ?C2 = "sim_conn (idle\<lparr>lookups := [Inl (ClientError ''AccessDenied'')]\<rparr>)"
  have l1: "get_queue_url sim_env ?q (world ?C1) = (Inl (ClientError not_found), idle)"
    by (simp add: sim_ops)
  have l2: "get_queue_url sim_env ?q (world ?C2) = (Inl (ClientError ''AccessDenied''), idle)"
    by (simp add: sim_ops)
  have c1: "fst (create_queue sim_env ?q queue_attributes idle) = Inr (sim_url ?q)"
    by (simp add: sim_ops)
  have ne: "Inl (ClientError ''AccessDenied'') \<noteq> (Inl (ClientError not_found) :: exn + ustr)"
    by (simp add: not_found_def)
  show ?thesis
    using get_or_create_queue_creates_on_not_found_only [OF l1]
          get_or_create_queue_creates_on_not_found_only [OF l2] c1 ne
    by (simp add: sim_conn_def)
qed

end
